theory Spec2Isabelle
  imports Complex_Main "HOL-Library.Multiset"
begin

section \<open>Python and numpy primitives used by the dice game\<close>

text \<open>
  Exceptions of the source are values: every \<open>raise\<close>, failed dictionary lookup and
  failed list index is a branch returning \<open>Inl\<close> of one of these.
\<close>

datatype error = ValueError | KeyError | IndexError | AxisError | TypeError

text \<open>
  \<open>np.intc\<close> is the C \<open>int\<close>: storing into an array of that dtype keeps the value
  when it lies in \<open>[-2^31, 2^31)\<close> and wraps it otherwise.
\<close>

definition intc :: "int \<Rightarrow> int" where
  "intc x = (x + 2 ^ 31) mod 2 ^ 32 - 2 ^ 31"

text \<open>
  \<open>itertools.combinations_with_replacement(pool, r)\<close>: the \<open>r\<close>-length tuples of
  elements of \<open>pool\<close> whose positions in \<open>pool\<close> do not decrease, in lexicographic
  order of the positions.
\<close>

fun combinations_with_replacement :: "'a list \<Rightarrow> nat \<Rightarrow> 'a list list" where
  "combinations_with_replacement xs 0 = [[]]"
| "combinations_with_replacement [] (Suc r) = []"
| "combinations_with_replacement (x # xs) (Suc r) =
     map ((#) x) (combinations_with_replacement (x # xs) r) @
     combinations_with_replacement xs (Suc r)"

text \<open>\<open>itertools.combinations(pool, r)\<close>: positions strictly increase.\<close>

fun combinations :: "'a list \<Rightarrow> nat \<Rightarrow> 'a list list" where
  "combinations xs 0 = [[]]"
| "combinations [] (Suc r) = []"
| "combinations (x # xs) (Suc r) =
     map ((#) x) (combinations xs r) @ combinations xs (Suc r)"

text \<open>
  \<open>np.unique(a, return_counts=True)\<close>: the sorted distinct elements, and how often each
  occurs in \<open>a\<close>.
\<close>

definition unique_values :: "int list \<Rightarrow> int list" where
  "unique_values a = sort (remdups a)"

definition unique_counts :: "int list \<Rightarrow> nat list" where
  "unique_counts a = map (count_list a) (unique_values a)"

text \<open>Boolean-mask indexing \<open>a[mask]\<close>: the elements at the positions where the mask holds.\<close>

definition select :: "bool list \<Rightarrow> 'a list \<Rightarrow> 'a list" where
  "select msk a = map snd (filter fst (zip msk a))"

text \<open>
  Boolean-mask assignment \<open>a[mask] = new\<close>: the positions where the mask holds receive
  the elements of \<open>new\<close> in order. Every use in the source supplies exactly as many new
  elements as the mask selects (\<open>roll\<close> checks the drawn sample before it assigns).
\<close>

fun assign_mask :: "bool list \<Rightarrow> 'a list \<Rightarrow> 'a list \<Rightarrow> 'a list" where
  "assign_mask (True # msk) (x # a) (v # new) = v # assign_mask msk a new"
| "assign_mask (False # msk) (x # a) new = x # assign_mask msk a new"
| "assign_mask msk a new = a"

text \<open>The list comprehension \<open>[d[x] for x in ks]\<close> over a dictionary \<open>d\<close>.\<close>

fun lookup_all :: "('k \<rightharpoonup> 'v) \<Rightarrow> 'k list \<Rightarrow> error + 'v list" where
  "lookup_all d [] = Inr []"
| "lookup_all d (k # ks) =
     (case d k of
        None \<Rightarrow> Inl KeyError
      | Some v \<Rightarrow> (case lookup_all d ks of Inl e \<Rightarrow> Inl e | Inr vs \<Rightarrow> Inr (v # vs)))"

text \<open>
  \<open>np.bincount(x, minlength=m)\<close>: entry \<open>i\<close> counts the occurrences of \<open>i\<close> in \<open>x\<close>;
  the result has \<open>max m (max x + 1)\<close> entries.
\<close>

definition bincount :: "nat list \<Rightarrow> nat \<Rightarrow> nat list" where
  "bincount x minlength = map (count_list x) [0..<foldr max (map Suc x) minlength]"

text \<open>
  Modelled from the spec: \<open>scipy.stats.multinomial.pmf(x, n, p)\<close>, library code that
  \<open>get_next_states\<close> calls and that is not under \<open>src/\<close>. The specification gives the
  probability of a rerolled multiset as \<open>k! / \<Prod> count\<^sub>v! \<cdot> \<Prod> bias\<^sub>v ^ count\<^sub>v\<close>; with the counts
  \<open>x\<close>, the number of trials \<open>n\<close> and the biases \<open>p\<close> that is
  \<open>n! / (x\<^sub>1! \<dots> x\<^sub>m!) \<cdot> p\<^sub>1 ^ x\<^sub>1 \<dots> p\<^sub>m ^ x\<^sub>m\<close> when the counts add up to \<open>n\<close>, and \<open>0\<close>
  otherwise. The arithmetic is exact real arithmetic: floating-point rounding is not part
  of the model.
\<close>

definition multinomial_pmf :: "nat list \<Rightarrow> nat \<Rightarrow> real list \<Rightarrow> real" where
  "multinomial_pmf x n p =
     (if sum_list x = n
      then fact n / prod_list (map fact x) * prod_list (map (\<lambda>(b, k). b ^ k) (zip p x))
      else 0)"

section \<open>The game: \<open>src/game/dice_game.py\<close>\<close>

text \<open>
  The constructor's parameters after defaulting. Face values and the penalty are
  integers (\<open>main.py\<close> parses them with \<open>int\<close>), biases are real numbers. The source
  keeps the face values in a 64-bit numpy array and adds them up there; the sums are
  mathematical integers here, which they are as long as they stay within 64 bits. Where
  the source stores face values into \<open>np.intc\<close> arrays, the model applies \<open>intc\<close>.
\<close>

record config =
  dice :: nat
  sides :: nat
  values' :: "int list"
  biases :: "real list"
  penalty :: int

text \<open>The two length checks of \<open>__init__\<close>; a game exists only when both pass.\<close>

definition init_check :: "config \<Rightarrow> error + unit" where
  "init_check c =
     (if length (values' c) \<noteq> sides c then Inl ValueError
      else if length (values' c) \<noteq> length (biases c) then Inl ValueError
      else Inr ())"

text \<open>
  \<open>{side: opposite for side, opposite in zip(values, values[::-1])}\<close>: a later pair
  replaces an earlier one with the same key.
\<close>

definition opposite_sides :: "config \<Rightarrow> int \<rightharpoonup> int" where
  "opposite_sides c = map_of (rev (zip (values' c) (rev (values' c))))"

definition states :: "config \<Rightarrow> int list list" where
  "states c = combinations_with_replacement (values' c) (dice c)"

definition actions :: "config \<Rightarrow> nat list list" where
  "actions c = [] # concat (map (combinations [0..<dice c]) [1..<dice c + 1])"

definition final_score :: "config \<Rightarrow> int list \<Rightarrow> error + int" where
  "final_score c dice_values =
     (let uniq = unique_values dice_values;
          counts = unique_counts dice_values;
          dup = map (\<lambda>n. 1 < n) counts;
          single = map (\<lambda>n. n = 1) counts
      in case lookup_all (opposite_sides c) (select dup uniq) of
           Inl e \<Rightarrow> Inl e
         | Inr flipped \<Rightarrow>
             (let uniq = assign_mask dup uniq flipped
              in Inr (sum_list (select single uniq) +
                      sum_list (map (\<lambda>(v, n). v * int n)
                                 (zip (select dup uniq) (select dup counts))))))"

text \<open>
  \<open>get_next_states\<close> returns the tuple
  \<open>(possible_states, game_over, reward, probabilities)\<close>; the sentinel \<open>None\<close> of the
  terminal branch is \<open>None\<close> here and a real next state is \<open>Some\<close>.

  After the membership test every index of \<open>action\<close> is below \<open>dice\<close>, so the mask
  \<open>mask[hold] = True\<close> (\<open>held\<close> below) is the list of the tests \<open>i \<in> action\<close>. When there is no face
  value and at least one die is rerolled, \<open>np.array\<close> of the empty list of tuples is
  one-dimensional and \<open>np.apply_along_axis(\<dots>, 1, \<dots>)\<close> raises.
\<close>

type_synonym next_states = "int list option list \<times> bool \<times> int \<times> real list"

definition get_next_states :: "config \<Rightarrow> int list \<Rightarrow> nat list \<Rightarrow> error + next_states" where
  "get_next_states c state action =
     (if state \<notin> set (states c) then Inl ValueError
      else if action \<notin> set (actions c) then Inl ValueError
      else
        let hold_count = length action in
        if hold_count = dice c then
          (case final_score c state of
             Inl e \<Rightarrow> Inl e
           | Inr fs \<Rightarrow> Inr ([None], True, fs, [1]))
        else
          let held = map (\<lambda>i. i \<in> set action) [0..<dice c];
              possible_states =
                map (map intc) (combinations_with_replacement (values' c) (dice c - hold_count));
              possible_states_index =
                combinations_with_replacement [0..<sides c] (dice c - hold_count)
          in if possible_states_index = [] then Inl AxisError
             else
               let queries = map (\<lambda>ix. bincount ix (sides c)) possible_states_index;
                   probabilities =
                     map (\<lambda>q. multinomial_pmf q (dice c - hold_count) (biases c)) queries;
                   state_as_array = map intc state;
                   possible_states = map (\<lambda>row. select held state_as_array @ row) possible_states;
                   possible_states = map sort possible_states
               in Inr (map Some possible_states, False, - penalty c, probabilities))"

subsection \<open>The mutable part of a game: \<open>reset\<close> and \<open>roll\<close>\<close>

text \<open>
  The three attributes that \<open>reset\<close> and \<open>roll\<close> assign. A method call takes the
  object's state and returns the state it leaves behind together with what the call
  returned or raised: an exception does not undo the assignments made before it.
\<close>

record game =
  game_over :: bool
  score :: int
  current_dice :: "int list"

definition get_dice_state :: "game \<Rightarrow> int list" where
  "get_dice_state g = current_dice g"

text \<open>
  \<open>__flip_duplicates\<close>. \<open>np.isin(current_dice, unique_values[counts > 1])\<close> marks the
  dice whose value occurs more than once; they are replaced by their opposite faces,
  stored into the \<open>intc\<close> array, which is then sorted in place.
\<close>

definition flip_duplicates :: "config \<Rightarrow> game \<Rightarrow> error + game" where
  "flip_duplicates c g =
     (let uniq = unique_values (current_dice g);
          counts = unique_counts (current_dice g)
      in if \<exists>n \<in> set counts. 1 < n then
           (let msk = map (\<lambda>x. x \<in> set (select (map (\<lambda>n. 1 < n) counts) uniq)) (current_dice g)
            in case lookup_all (opposite_sides c) (select msk (current_dice g)) of
                 Inl e \<Rightarrow> Inl e
               | Inr flipped \<Rightarrow>
                   Inr (g\<lparr>current_dice :=
                            sort (assign_mask msk (current_dice g) (map intc flipped))\<rparr>))
         else Inr (g\<lparr>current_dice := sort (current_dice g)\<rparr>))"

text \<open>\<open>roll\<close> returns either the bare value \<open>0\<close> or the pair \<open>(state, game_over)\<close>.\<close>

datatype roll_result = Returned_zero | Returned "int list" bool

text \<open>
  \<open>np.random.choice(values, size=not_held, replace=True, p=biases)\<close> is library code
  that consumes outside randomness. Its outcome for the call is the parameter
  \<open>sample\<close>: either the exception it raised or the values it drew. \<open>choice\<close> returns
  exactly \<open>size\<close> values, so a sample of another length is rejected here.
\<close>

definition roll :: "config \<Rightarrow> error + int list \<Rightarrow> game \<Rightarrow> nat list \<Rightarrow> game \<times> (error + roll_result)" where
  "roll c sample g action =
     (if action \<notin> set (actions c) then (g, Inl ValueError)
      else if game_over g then (g, Inr Returned_zero)
      else
        let hold_count = length action in
        if hold_count = dice c then
          (case flip_duplicates c g of
             Inl e \<Rightarrow> (g, Inl e)
           | Inr g1 \<Rightarrow>
               (let g2 = g1\<lparr>score := score g1 + sum_list (current_dice g1)\<rparr>
                in (g2, Inr (Returned (get_dice_state g2) True))))
        else
          let msk = map (\<lambda>i. i \<notin> set action) [0..<dice c];
              not_held = dice c - hold_count
          in case sample of
               Inl e \<Rightarrow> (g, Inl e)
             | Inr drawn \<Rightarrow>
                 if length drawn \<noteq> not_held then (g, Inl ValueError)
                 else
                   (let g1 = g\<lparr>current_dice :=
                                 sort (assign_mask msk (current_dice g) (map intc drawn))\<rparr>;
                        g2 = g1\<lparr>score := score g1 - penalty c\<rparr>
                    in (g2, Inr (Returned (get_dice_state g2) False))))"

text \<open>
  \<open>reset\<close> assigns all three attributes and rolls with the default action \<open>()\<close>.
  Unpacking \<open>dice, _ = self.roll()\<close> fails on the bare \<open>0\<close>.
\<close>

definition reset :: "config \<Rightarrow> error + int list \<Rightarrow> game \<Rightarrow> game \<times> (error + int list)" where
  "reset c sample g =
     (let g = g\<lparr>game_over := False\<rparr>;
          g = g\<lparr>score := penalty c\<rparr>;
          g = g\<lparr>current_dice := replicate (dice c) 0\<rparr>
      in case roll c sample g [] of
           (g', Inl e) \<Rightarrow> (g', Inl e)
         | (g', Inr Returned_zero) \<Rightarrow> (g', Inl TypeError)
         | (g', Inr (Returned d over)) \<Rightarrow> (g', Inr d))"


section \<open>The agent: \<open>src/agent/dice_game_agent.py\<close>\<close>

text \<open>
  The state-value function and the policy are dictionaries keyed by states. Values are
  Python floats in the source and real numbers here: rounding is not modelled.
\<close>

type_synonym value_function = "int list \<rightharpoonup> real"
type_synonym policy = "int list \<rightharpoonup> nat list"

definition theta :: real where
  "theta = 1 / 1000"

definition gamma :: real where
  "gamma = 94 / 100"

text \<open>
  Indexing a Python list: an index from \<open>-len\<close> up to \<open>-1\<close> counts from the end, an
  index outside \<open>[-len, len)\<close> raises \<open>IndexError\<close>.
\<close>

definition list_index :: "'a list \<Rightarrow> int \<Rightarrow> error + 'a" where
  "list_index xs i =
     (if 0 \<le> i \<and> i < int (length xs) then Inr (xs ! nat i)
      else if - int (length xs) \<le> i \<and> i < 0 then Inr (xs ! nat (int (length xs) + i))
      else Inl IndexError)"

text \<open>
  The Bellman sum, the loop \<open>for i in range(len(new_states))\<close> of both
  \<open>__policy_evaluation\<close> and \<open>__policy_improvement\<close>, started with the accumulator
  \<open>0\<close> and the indices \<open>0, \<dots>, len(new_states) - 1\<close>. The sentinel \<open>None\<close> is not a key
  of the value function.
\<close>

fun bellman :: "value_function \<Rightarrow> int list \<Rightarrow> next_states \<Rightarrow> nat list \<Rightarrow> real \<Rightarrow> error + real" where
  "bellman v state ns [] acc = Inr acc"
| "bellman v state (new_states, over, reward, probabilities) (i # rest) acc =
     (if \<not> over then
        (if length probabilities \<le> i then Inl IndexError
         else
           (case new_states ! i of
              None \<Rightarrow> Inl KeyError
            | Some s' \<Rightarrow>
                (case v s' of
                   None \<Rightarrow> Inl KeyError
                 | Some x \<Rightarrow>
                     bellman v state (new_states, over, reward, probabilities) rest
                       (acc + probabilities ! i * (of_int reward + gamma * x)))))
      else
        (case v state of
           None \<Rightarrow> Inl KeyError
         | Some x \<Rightarrow>
             bellman v state (new_states, over, reward, probabilities) rest
               (acc + (of_int reward + gamma * x))))"

definition action_value :: "config \<Rightarrow> value_function \<Rightarrow> int list \<Rightarrow> nat list \<Rightarrow> error + real" where
  "action_value c v state action =
     (case get_next_states c state action of
        Inl e \<Rightarrow> Inl e
      | Inr ns \<Rightarrow> bellman v state ns [0..<length (fst ns)] 0)"

text \<open>
  The body of the loop \<open>for state in self.game.states\<close> of \<open>__policy_evaluation\<close>, on
  the variables \<open>(v, delta, converged)\<close>.
\<close>

definition evaluate_state ::
  "config \<Rightarrow> policy \<Rightarrow> value_function \<times> real \<times> bool \<Rightarrow> int list \<Rightarrow>
   error + value_function \<times> real \<times> bool" where
  "evaluate_state c pol acc state =
     (case acc of (v, delta, converged) \<Rightarrow>
        (case v state of
           None \<Rightarrow> Inl KeyError
         | Some old_v \<Rightarrow>
             (case pol state of
                None \<Rightarrow> Inl KeyError
              | Some action \<Rightarrow>
                  (case action_value c v state action of
                     Inl e \<Rightarrow> Inl e
                   | Inr new_v \<Rightarrow>
                       (let v = (if new_v > old_v then v(state \<mapsto> new_v) else v)
                        in case v state of
                             None \<Rightarrow> Inl KeyError
                           | Some cur \<Rightarrow>
                               (let delta = max delta \<bar>old_v - cur\<bar>;
                                    converged = (if delta < theta then True else converged)
                                in Inr (v, delta, converged)))))))"

fun sweep ::
  "config \<Rightarrow> policy \<Rightarrow> int list list \<Rightarrow> value_function \<times> real \<times> bool \<Rightarrow>
   error + value_function \<times> real \<times> bool" where
  "sweep c pol [] acc = Inr acc"
| "sweep c pol (state # rest) acc =
     (case evaluate_state c pol acc state of
        Inl e \<Rightarrow> Inl e
      | Inr acc' \<Rightarrow> sweep c pol rest acc')"

text \<open>
  \<open>__policy_evaluation\<close>: \<open>while not converged\<close>, each round starting with
  \<open>delta = 0\<close>. The loop need not end; \<open>None\<close> is the run that never returns.
\<close>

partial_function (option) policy_evaluation ::
  "config \<Rightarrow> value_function \<Rightarrow> policy \<Rightarrow> (error + value_function) option" where
  "policy_evaluation c v pol =
     (case sweep c pol (states c) (v, 0, False) of
        Inl e \<Rightarrow> Some (Inl e)
      | Inr (v', delta, converged) \<Rightarrow>
          if converged then Some (Inr v') else policy_evaluation c v' pol)"

declare policy_evaluation.simps [code]

text \<open>
  The body of the loop of \<open>__policy_improvement\<close>, on the variables
  \<open>(new_policy, stable)\<close>; \<open>new_policy\<close> and \<open>policy\<close> are the same dictionary.
\<close>

definition improve_state ::
  "config \<Rightarrow> int \<Rightarrow> value_function \<Rightarrow> policy \<times> bool \<Rightarrow> int list \<Rightarrow> error + policy \<times> bool" where
  "improve_state c action_index v acc state =
     (case acc of (pol, stable') \<Rightarrow>
        (case pol state of
           None \<Rightarrow> Inl KeyError
         | Some old_action \<Rightarrow>
             (case list_index (actions c) action_index of
                Inl e \<Rightarrow> Inl e
              | Inr new_action \<Rightarrow>
                  (case action_value c v state new_action of
                     Inl e \<Rightarrow> Inl e
                   | Inr val \<Rightarrow>
                       (case v state of
                          None \<Rightarrow> Inl KeyError
                        | Some x \<Rightarrow>
                            (let pol = (if val > x then pol(state \<mapsto> new_action) else pol)
                             in case pol state of
                                  None \<Rightarrow> Inl KeyError
                                | Some cur \<Rightarrow>
                                    Inr (pol, if old_action \<noteq> cur then False else stable')))))))"

fun improve_all ::
  "config \<Rightarrow> int \<Rightarrow> value_function \<Rightarrow> int list list \<Rightarrow> policy \<times> bool \<Rightarrow> error + policy \<times> bool" where
  "improve_all c action_index v [] acc = Inr acc"
| "improve_all c action_index v (state # rest) acc =
     (case improve_state c action_index v acc state of
        Inl e \<Rightarrow> Inl e
      | Inr acc' \<Rightarrow> improve_all c action_index v rest acc')"

definition policy_improvement ::
  "config \<Rightarrow> int \<Rightarrow> value_function \<Rightarrow> policy \<Rightarrow> error + int \<times> bool \<times> policy" where
  "policy_improvement c action_index v pol =
     (let action_index = action_index - 1
      in case improve_all c action_index v (states c) (pol, True) of
           Inl e \<Rightarrow> Inl e
         | Inr (new_policy, stable') \<Rightarrow> Inr (action_index, stable', new_policy))"

text \<open>
  \<open>__policy_iteration\<close>: the loop \<open>while not policy_stable\<close> on the variables
  \<open>(i, v, policy)\<close>, and the initialisation before it.
\<close>

partial_function (option) policy_iteration_loop ::
  "config \<Rightarrow> int \<Rightarrow> value_function \<Rightarrow> policy \<Rightarrow> (error + policy) option" where
  "policy_iteration_loop c i v pol =
     Option.bind (policy_evaluation c v pol)
       (\<lambda>r. case r of
               Inl e \<Rightarrow> Some (Inl e)
             | Inr v' \<Rightarrow>
                 (case policy_improvement c i v' pol of
                    Inl e \<Rightarrow> Some (Inl e)
                  | Inr (i', policy_stable, pol') \<Rightarrow>
                      if policy_stable then Some (Inr pol')
                      else policy_iteration_loop c i' v' pol'))"

declare policy_iteration_loop.simps [code]

definition initial_values :: "config \<Rightarrow> value_function" where
  "initial_values c = map_of (map (\<lambda>state. (state, 0)) (states c))"

definition initial_policy :: "config \<Rightarrow> nat list \<Rightarrow> policy" where
  "initial_policy c action = map_of (map (\<lambda>state. (state, action)) (states c))"

definition policy_iteration :: "config \<Rightarrow> (error + policy) option" where
  "policy_iteration c =
     (let i = int (length (actions c)) - 1
      in case list_index (actions c) i of
           Inl e \<Rightarrow> Some (Inl e)
         | Inr action \<Rightarrow> policy_iteration_loop c i (initial_values c) (initial_policy c action))"

text \<open>
  The rounds of the loop in \<open>__policy_iteration\<close>: from the variables
  \<open>(i, v, policy)\<close> at the loop head, one round is an evaluation that returns followed
  by an improvement that returns, and a further round follows only when the improvement
  reported a change; \<open>solve_reaches\<close> relates the variables before any number of rounds
  to those after them.
\<close>

inductive solve_reaches ::
  "config \<Rightarrow> int \<times> value_function \<times> policy \<Rightarrow> int \<times> value_function \<times> policy \<Rightarrow> bool"
  for c :: config where
  here: "solve_reaches c st st"
| later: "policy_evaluation c v pol = Some (Inr v') \<Longrightarrow>
          policy_improvement c i v' pol = Inr (i', stable', pol') \<Longrightarrow>
          solve_reaches c (i', v', pol') st \<Longrightarrow>
          (stable' \<longrightarrow> st = (i', v', pol')) \<Longrightarrow>
          solve_reaches c (i, v, pol) st"

text \<open>No state's value is lower in \<open>v'\<close> than in \<open>v\<close>.\<close>

definition le_values :: "value_function \<Rightarrow> value_function \<Rightarrow> bool" where
  "le_values v v' \<longleftrightarrow> (\<forall>s x. v s = Some x \<longrightarrow> (\<exists>y. v' s = Some y \<and> x \<le> y))"

section \<open>The specification's reading of the final score and of the probabilities\<close>






section \<open>Example configurations\<close>


definition two_sided_game :: config where
  "two_sided_game = \<lparr>dice = 1, sides = 2, values' = [1, 2], biases = [1/2, 1/2], penalty = 1\<rparr>"

text \<open>A game without dice, and an arbitrary object state for \<open>reset\<close> to overwrite.\<close>

definition no_dice_game :: config where
  "no_dice_game = \<lparr>dice = 0, sides = 6, values' = [1, 2, 3, 4, 5, 6],
                     biases = [1/6, 1/6, 1/6, 1/6, 1/6, 1/6], penalty = 1\<rparr>"

definition blank :: game where
  "blank = \<lparr>game_over = False, score = 0, current_dice = []\<rparr>"

text \<open>
  One die with the faces \<open>0\<close> and \<open>5\<close>, and one die with the faces \<open>-1\<close>, \<open>0\<close>, \<open>1\<close>
  whose rerolls are rewarded (penalty \<open>-1\<close>).
\<close>

definition zero_five_game :: config where
  "zero_five_game = \<lparr>dice = 1, sides = 2, values' = [0, 5], biases = [1/2, 1/2], penalty = 1\<rparr>"

definition reward_game :: config where
  "reward_game = \<lparr>dice = 1, sides = 3, values' = [-1, 0, 1], biases = [1/3, 1/3, 1/3],
                    penalty = -1\<rparr>"

section \<open>An auxiliary weight\<close>

text \<open>
  The multinomial term of a tuple \<open>ys\<close> without its leading factorial: the product over
  the pool \<open>xs\<close> of \<open>w x ^ n / n!\<close>, with \<open>n\<close> the number of occurrences of \<open>x\<close> in
  \<open>ys\<close>.
\<close>

definition weight :: "('a \<Rightarrow> real) \<Rightarrow> 'a list \<Rightarrow> 'a list \<Rightarrow> real" where
  "weight w xs ys = prod_list (map (\<lambda>x. w x ^ count_list ys x / fact (count_list ys x)) xs)"

section \<open>Facts about the enumerations and the masks\<close>

lemma set_combinations_with_replacement:
  "ys \<in> set (combinations_with_replacement xs r) \<Longrightarrow> set ys \<subseteq> set xs \<and> length ys = r"
  by (induction xs r arbitrary: ys rule: combinations_with_replacement.induct) fastforce+


lemma state_in_values: "s \<in> set (states c) \<Longrightarrow> set s \<subseteq> set (values' c) \<and> length s = dice c"
  unfolding states_def by (rule set_combinations_with_replacement)

lemma dom_opposite_sides: "dom (opposite_sides c) = set (values' c)"
proof -
  have "dom (opposite_sides c) = dom (map_of (zip (values' c) (rev (values' c))))"
    by (simp add: opposite_sides_def dom_map_of_conv_image_fst)
  then show ?thesis
    by (simp add: dom_map_of_zip)
qed

lemma lookup_all_total:
  "set ks \<subseteq> dom d \<Longrightarrow> lookup_all d ks = Inr (map (\<lambda>k. the (d k)) ks)"
  by (induction ks) auto

lemma select_map: "select (map P xs) (map f xs) = map f (filter P xs)"
  by (induction xs) (auto simp: select_def)

lemma select_map_id: "select (map P xs) xs = filter P xs"
  using select_map [of P xs "\<lambda>x. x"] by simp

lemma select_assign_same:
  "length a = length xs \<Longrightarrow> length new = length (filter P xs) \<Longrightarrow>
   select (map P xs) (assign_mask (map P xs) a new) = new"
proof (induction xs arbitrary: a new)
  case Nil
  then show ?case by (simp add: select_def)
next
  case (Cons x xs)
  then obtain y a' where a: "a = y # a'" by (cases a) auto
  show ?case
  proof (cases "P x")
    case True
    with Cons.prems obtain v new' where n: "new = v # new'" by (cases new) auto
    with True a Cons show ?thesis by (simp add: select_def)
  next
    case False
    with a Cons show ?thesis by (simp add: select_def)
  qed
qed

lemma select_assign_other:
  "length a = length xs \<Longrightarrow> (\<And>x. x \<in> set xs \<Longrightarrow> \<not> (P x \<and> Q x)) \<Longrightarrow>
   select (map Q xs) (assign_mask (map P xs) a new) = select (map Q xs) a"
proof (induction xs arbitrary: a new)
  case Nil
  then show ?case by (simp add: select_def)
next
  case (Cons x xs)
  then obtain y a' where a: "a = y # a'" by (cases a) auto
  have ih: "\<And>new. select (map Q xs) (assign_mask (map P xs) a' new) = select (map Q xs) a'"
    using Cons a by simp
  show ?case
  proof (cases "P x")
    case True
    then have nq: "\<not> Q x" using Cons.prems(2) by auto
    show ?thesis
    proof (cases new)
      case Nil
      with True a show ?thesis by simp
    next
      case (Cons v new')
      with True a nq ih show ?thesis by (simp add: select_def)
    qed
  next
    case False
    with a ih show ?thesis by (simp add: select_def)
  qed
qed

lemma zip_map_same: "zip (map f xs) (map g xs) = map (\<lambda>x. (f x, g x)) xs"
  by (induction xs) auto

section \<open>The final score\<close>

text \<open>
  On dice showing face values only, \<open>final_score\<close> never fails, and it is the sum the
  code's comments describe, over the sorted distinct values.
\<close>

lemma final_score_eq:
  assumes "set s \<subseteq> set (values' c)"
  shows "final_score c s =
           Inr (sum_list (filter (\<lambda>v. count_list s v = 1) (unique_values s)) +
                sum_list (map (\<lambda>v. the (opposite_sides c v) * int (count_list s v))
                           (filter (\<lambda>v. 1 < count_list s v) (unique_values s))))"
proof -
  let ?U = "unique_values s"
  let ?D = "\<lambda>v. 1 < count_list s v"
  let ?S = "\<lambda>v. count_list s v = 1"
  let ?opp = "\<lambda>v. the (opposite_sides c v)"
  have dup: "map (\<lambda>n. 1 < n) (unique_counts s) = map ?D ?U"
    and single: "map (\<lambda>n. n = 1) (unique_counts s) = map ?S ?U"
    by (simp_all add: unique_counts_def)
  have sel_dup: "select (map ?D ?U) ?U = filter ?D ?U"
    by (rule select_map_id)
  have "set (filter ?D ?U) \<subseteq> dom (opposite_sides c)"
    using assms by (auto simp: dom_opposite_sides unique_values_def)
  then have look: "lookup_all (opposite_sides c) (filter ?D ?U) = Inr (map ?opp (filter ?D ?U))"
    by (rule lookup_all_total)
  let ?F = "map ?opp (filter ?D ?U)"
  have a1: "select (map ?S ?U) (assign_mask (map ?D ?U) ?U ?F) = filter ?S ?U"
    by (subst select_assign_other) (auto simp: select_map_id)
  have a2: "select (map ?D ?U) (assign_mask (map ?D ?U) ?U ?F) = ?F"
    by (rule select_assign_same) simp_all
  have a3: "select (map ?D ?U) (unique_counts s) = map (count_list s) (filter ?D ?U)"
    unfolding unique_counts_def by (rule select_map)
  have a4: "map (\<lambda>(v, n). v * int n) (zip ?F (map (count_list s) (filter ?D ?U)))
              = map (\<lambda>v. ?opp v * int (count_list s v)) (filter ?D ?U)"
    by (simp add: zip_map_same)
  show ?thesis
    by (simp only: final_score_def Let_def dup single sel_dup look sum.case a1 a2 a3 a4)
qed

lemma final_score_total:
  "s \<in> set (states c) \<Longrightarrow> \<exists>fs. final_score c s = Inr fs"
  using final_score_eq state_in_values by blast








section \<open>The transition model\<close>

lemma terminal_branch:
  assumes "s \<in> set (states c)" "a \<in> set (actions c)" "length a = dice c"
  shows "\<exists>fs. final_score c s = Inr fs \<and> get_next_states c s a = Inr ([None], True, fs, [1])"
proof -
  from assms(1) obtain fs where "final_score c s = Inr fs"
    using final_score_total by blast
  with assms show ?thesis
    by (simp add: get_next_states_def)
qed

text \<open>
  Claim C2. For a state of the state list and the action of the action list that holds
  every die, \<open>get_next_states\<close> returns the single sentinel next state, the game-over
  flag set, the final score of the state as reward, and the single probability \<open>1\<close>.
\<close>

theorem terminal_next_states:
  assumes "s \<in> set (states c)" "a \<in> set (actions c)" "length a = dice c"
  shows "\<exists>fs. final_score c s = Inr fs \<and> get_next_states c s a = Inr ([None], True, fs, [1])"
  using assms by (rule terminal_branch)

theorem terminal_next_states_witness:
  "[2] \<in> set (states two_sided_game) \<and> [0] \<in> set (actions two_sided_game) \<and>
   length [0::nat] = dice two_sided_game \<and>
   final_score two_sided_game [2] = Inr 2 \<and>
   get_next_states two_sided_game [2] [0] = Inr ([None], True, 2, [1])"
proof -
  have h1: "[2] \<in> set (states two_sided_game)" by code_simp
  have h2: "[0] \<in> set (actions two_sided_game)" by code_simp
  have h3: "length [0::nat] = dice two_sided_game" by code_simp
  have fs: "final_score two_sided_game [2] = Inr 2" by code_simp
  from terminal_next_states [OF h1 h2 h3] fs h1 h2 h3 show ?thesis by auto
qed





section \<open>The non-terminal branch of the transition model\<close>





lemma length_combinations: "ys \<in> set (combinations xs r) \<Longrightarrow> length ys = r"
  by (induction xs r arbitrary: ys rule: combinations.induct) auto


lemma action_length: "a \<in> set (actions c) \<Longrightarrow> length a \<le> dice c"
  by (auto simp: actions_def dest: length_combinations)


lemma bincount_bounded:
  assumes "\<forall>i \<in> set ix. i < n"
  shows "bincount ix n = map (count_list ix) [0..<n]"
proof -
  have "foldr max (map Suc ix) n = n"
    using assms by (induction ix) (auto simp: max_def)
  then show ?thesis by (simp add: bincount_def)
qed

lemma sum_list_counts:
  assumes "\<forall>i \<in> set ix. i < n"
  shows "sum_list (map (count_list ix) [0..<n]) = length ix"
proof -
  have "sum_list (map (count_list ix) [0..<n]) = sum (count_list ix) {0..<n}"
    by (simp add: interv_sum_list_conv_sum_set_nat)
  also have "\<dots> = length ix"
    using assms by (intro sum_count_set) auto
  finally show ?thesis .
qed



lemma zip_nth_upt:
  assumes "length ps = n"
  shows "zip ps (map f [0..<n]) = map (\<lambda>i. (ps ! i, f i)) [0..<n]"
proof -
  have "zip (map (\<lambda>i. ps ! i) [0..<n]) (map f [0..<n]) = map (\<lambda>i. (ps ! i, f i)) [0..<n]"
    by (rule zip_map_same)
  moreover have "map (\<lambda>i. ps ! i) [0..<n] = ps"
    unfolding assms [symmetric] by (rule map_nth)
  ultimately show ?thesis
    by simp
qed















section \<open>The probabilities of a reroll in exact arithmetic\<close>

text \<open>
  Summed over the enumerated tuples, the multinomial terms give the multinomial theorem:
  the probabilities that \<open>get_next_states\<close> returns for a reroll of \<open>k\<close> dice add up to
  the \<open>k\<close>-th power of the sum of the biases, hence to \<open>1\<close> for biases that add up to
  \<open>1\<close>. This is a statement about real numbers; the rounding of the floating-point
  computation is not covered.
\<close>

lemma weight_Nil [simp]: "weight w [] ys = 1"
  by (simp add: weight_def)

lemma weight_Cons:
  "weight w (x # xs) ys = w x ^ count_list ys x / fact (count_list ys x) * weight w xs ys"
  by (simp add: weight_def)

lemma weight_skip: "x \<notin> set xs \<Longrightarrow> weight w xs (x # zs) = weight w xs zs"
  by (induction xs) (auto simp: weight_def)

lemma weight_empty [simp]: "weight w xs [] = 1"
  by (induction xs) (auto simp: weight_def)

lemma sum_leading:
  fixes w :: "'a \<Rightarrow> real"
  assumes nx: "x \<notin> set xs"
    and rest: "\<And>k. (\<Sum>ys\<leftarrow>combinations_with_replacement xs k. weight w xs ys) = S ^ k / fact k"
  shows "(\<Sum>zs\<leftarrow>combinations_with_replacement (x # xs) k.
            w x ^ (j + count_list zs x) / fact (j + count_list zs x) * weight w xs zs)
         = (\<Sum>i\<le>k. w x ^ (j + i) / fact (j + i) * (S ^ (k - i) / fact (k - i)))"
proof (induction k arbitrary: j)
  case 0
  show ?case by simp
next
  case (Suc k)
  have first: "(\<Sum>zs\<leftarrow>map ((#) x) (combinations_with_replacement (x # xs) k).
            w x ^ (j + count_list zs x) / fact (j + count_list zs x) * weight w xs zs)
        = (\<Sum>i\<le>k. w x ^ (Suc j + i) / fact (Suc j + i) * (S ^ (k - i) / fact (k - i)))"
    using Suc.IH [of "Suc j"] nx by (simp add: comp_def weight_skip)
  have "\<And>zs. zs \<in> set (combinations_with_replacement xs (Suc k)) \<Longrightarrow> count_list zs x = 0"
    using nx set_combinations_with_replacement [of _ xs "Suc k"] by (auto simp: count_list_0_iff)
  then have "(\<Sum>zs\<leftarrow>combinations_with_replacement xs (Suc k).
            w x ^ (j + count_list zs x) / fact (j + count_list zs x) * weight w xs zs)
        = (\<Sum>zs\<leftarrow>combinations_with_replacement xs (Suc k). w x ^ j / fact j * weight w xs zs)"
    by (intro arg_cong [where f = sum_list] map_cong) auto
  also have "\<dots> = w x ^ j / fact j * (S ^ Suc k / fact (Suc k))"
    by (simp only: sum_list_const_mult rest)
  finally have second: "(\<Sum>zs\<leftarrow>combinations_with_replacement xs (Suc k).
            w x ^ (j + count_list zs x) / fact (j + count_list zs x) * weight w xs zs)
        = w x ^ j / fact j * (S ^ Suc k / fact (Suc k))" .
  have "(\<Sum>i\<le>Suc k. w x ^ (j + i) / fact (j + i) * (S ^ (Suc k - i) / fact (Suc k - i)))
        = w x ^ j / fact j * (S ^ Suc k / fact (Suc k)) +
          (\<Sum>i\<le>k. w x ^ (Suc j + i) / fact (Suc j + i) * (S ^ (k - i) / fact (k - i)))"
    by (subst sum.atMost_Suc_shift) simp
  with first second show ?case
    by (simp only: combinations_with_replacement.simps map_append sum_list_append)
qed

lemma binomial_exp:
  fixes a b :: real
  shows "(\<Sum>i\<le>k. a ^ i / fact i * (b ^ (k - i) / fact (k - i))) = (a + b) ^ k / fact k"
proof -
  have "(a + b) ^ k = (\<Sum>i\<le>k. of_nat (k choose i) * a ^ i * b ^ (k - i))"
    by (rule binomial_ring)
  also have "\<dots> = (\<Sum>i\<le>k. fact k * (a ^ i / fact i * (b ^ (k - i) / fact (k - i))))"
    by (intro sum.cong refl) (simp add: binomial_fact)
  also have "\<dots> = fact k * (\<Sum>i\<le>k. a ^ i / fact i * (b ^ (k - i) / fact (k - i)))"
    by (simp only: sum_distrib_left)
  finally show ?thesis by simp
qed

lemma sum_weight:
  fixes w :: "'a \<Rightarrow> real"
  assumes "distinct xs"
  shows "(\<Sum>ys\<leftarrow>combinations_with_replacement xs k. weight w xs ys)
           = (\<Sum>x\<leftarrow>xs. w x) ^ k / fact k"
  using assms
proof (induction xs arbitrary: k)
  case Nil
  show ?case by (cases k) simp_all
next
  case (Cons x xs)
  then have nx: "x \<notin> set xs" and d: "distinct xs" by simp_all
  have rest: "\<And>k. (\<Sum>ys\<leftarrow>combinations_with_replacement xs k. weight w xs ys)
                 = (\<Sum>x\<leftarrow>xs. w x) ^ k / fact k"
    using Cons.IH [OF d] .
  have "(\<Sum>ys\<leftarrow>combinations_with_replacement (x # xs) k. weight w (x # xs) ys)
        = (\<Sum>zs\<leftarrow>combinations_with_replacement (x # xs) k.
            w x ^ (0 + count_list zs x) / fact (0 + count_list zs x) * weight w xs zs)"
    by (simp add: weight_Cons)
  also have "\<dots> = (\<Sum>i\<le>k. w x ^ (0 + i) / fact (0 + i) *
                       ((\<Sum>x\<leftarrow>xs. w x) ^ (k - i) / fact (k - i)))"
    by (rule sum_leading [OF nx rest])
  also have "\<dots> = (w x + (\<Sum>x\<leftarrow>xs. w x)) ^ k / fact k"
    using binomial_exp [of "w x" _ k] by simp
  finally show ?case by simp
qed

lemma prod_list_divide:
  fixes f g :: "'a \<Rightarrow> real"
  shows "prod_list (map (\<lambda>x. f x / g x) xs) = prod_list (map f xs) / prod_list (map g xs)"
  by (induction xs) simp_all

lemma multinomial_pmf_weight:
  assumes lp: "length ps = n" and ix: "\<forall>i \<in> set ix. i < n"
  shows "multinomial_pmf (bincount ix n) (length ix) ps
           = fact (length ix) * weight (\<lambda>i. ps ! i) [0..<n] ix"
proof -
  have q: "prod_list (map (\<lambda>(b, k). b ^ k) (zip ps (map (count_list ix) [0..<n])))
              = prod_list (map (\<lambda>i. ps ! i ^ count_list ix i) [0..<n])"
    by (simp add: zip_nth_upt [OF lp] comp_def)
  have "weight (\<lambda>i. ps ! i) [0..<n] ix
          = prod_list (map (\<lambda>i. ps ! i ^ count_list ix i) [0..<n]) /
            prod_list (map (\<lambda>i. fact (count_list ix i)) [0..<n])"
    unfolding weight_def by (rule prod_list_divide)
  then show ?thesis
    unfolding multinomial_pmf_def bincount_bounded [OF ix] sum_list_counts [OF ix] q
    by (simp add: comp_def)
qed

lemma probabilities_sum:
  assumes "length ps = n"
  shows "(\<Sum>ix\<leftarrow>combinations_with_replacement [0..<n] k. multinomial_pmf (bincount ix n) k ps)
           = sum_list ps ^ k"
proof -
  let ?IX = "combinations_with_replacement [0..<n] k"
  have "multinomial_pmf (bincount ix n) k ps = fact k * weight (\<lambda>i. ps ! i) [0..<n] ix"
    if "ix \<in> set ?IX" for ix
  proof -
    from that have "set ix \<subseteq> set [0..<n]" and "length ix = k"
      using set_combinations_with_replacement by blast+
    then have "\<forall>i \<in> set ix. i < n" by auto
    from multinomial_pmf_weight [OF assms this] \<open>length ix = k\<close> show ?thesis by simp
  qed
  then have "(\<Sum>ix\<leftarrow>?IX. multinomial_pmf (bincount ix n) k ps)
               = (\<Sum>ix\<leftarrow>?IX. fact k * weight (\<lambda>i. ps ! i) [0..<n] ix)"
    by (intro arg_cong [where f = sum_list] map_cong) auto
  also have "\<dots> = fact k * (\<Sum>ix\<leftarrow>?IX. weight (\<lambda>i. ps ! i) [0..<n] ix)"
    by (simp only: sum_list_const_mult)
  also have "\<dots> = fact k * ((\<Sum>i\<leftarrow>[0..<n]. ps ! i) ^ k / fact k)"
    by (subst sum_weight) simp_all
  also have "(\<Sum>i\<leftarrow>[0..<n]. ps ! i) = sum_list ps"
    unfolding assms [symmetric] by (simp only: map_nth)
  finally show ?thesis by simp
qed

lemma next_state_probabilities_sum:
  assumes "init_check c = Inr ()" "length a \<noteq> dice c"
    and "get_next_states c s a = Inr (new_states, over, reward, probabilities)"
  shows "sum_list probabilities = sum_list (biases c) ^ (dice c - length a)"
proof -
  from assms(1) have lb: "length (biases c) = sides c"
    by (auto simp: init_check_def split: if_splits)
  from assms(2,3) have "probabilities =
      map (\<lambda>ix. multinomial_pmf (bincount ix (sides c)) (dice c - length a) (biases c))
        (combinations_with_replacement [0..<sides c] (dice c - length a))"
    by (auto simp: get_next_states_def Let_def comp_def split: if_splits)
  then show ?thesis
    using probabilities_sum [OF lb, of "dice c - length a"] by simp
qed

lemma next_state_probabilities_sum_one:
  assumes "init_check c = Inr ()" "sum_list (biases c) = 1" "length a \<noteq> dice c"
    and "get_next_states c s a = Inr (new_states, over, reward, probabilities)"
  shows "sum_list probabilities = 1"
  using next_state_probabilities_sum [OF assms(1,3,4)] assms(2) by simp

section \<open>Score bookkeeping and the game-over flag\<close>







text \<open>
  Claim C6, as the code has it. With at least one die the roll inside \<open>reset\<close> is not
  terminal, so whenever \<open>reset\<close> returns the score is \<open>penalty - penalty = 0\<close>, for
  every side count, value domain, bias list and penalty.
\<close>

theorem reset_score_zero:
  assumes "0 < dice c" "reset c sample g = (g', Inr d)"
  shows "score g' = 0"
  using assms
  by (auto simp: reset_def roll_def actions_def Let_def split: sum.splits if_splits)

theorem reset_score_zero_witness:
  "0 < dice two_sided_game \<and>
   reset two_sided_game (Inr [2]) blank =
     (\<lparr>game_over = False, score = 0, current_dice = [2]\<rparr>, Inr [2]) \<and>
   score \<lparr>game_over = False, score = 0, current_dice = [2]\<rparr> = 0"
proof -
  have h1: "0 < dice two_sided_game" by code_simp
  have h2: "reset two_sided_game (Inr [2]) blank =
     (\<lparr>game_over = False, score = 0, current_dice = [2]\<rparr>, Inr [2])" by code_simp
  from reset_score_zero [OF h1 h2] h1 h2 show ?thesis by simp
qed

text \<open>
  Claim C6 as stated (any dice count) fails without dice: the empty action then holds
  every die, the roll inside \<open>reset\<close> takes the terminal branch, adds the empty dice sum
  and subtracts no penalty. \<open>reset\<close> returns and the score is the penalty, here \<open>1\<close>.
\<close>

theorem reset_score_counterexample:
  "reset no_dice_game (Inr []) blank =
     (\<lparr>game_over = False, score = 1, current_dice = []\<rparr>, Inr []) \<and>
   score (fst (reset no_dice_game (Inr []) blank)) \<noteq> 0 \<and>
   init_check no_dice_game = Inr ()"
  by code_simp



section \<open>Policy evaluation only raises values\<close>

lemma le_values_refl: "le_values v v"
  by (auto simp: le_values_def)

lemma le_values_trans: "le_values u v \<Longrightarrow> le_values v w \<Longrightarrow> le_values u w"
  unfolding le_values_def by (meson order_trans)

lemma le_values_update: "v s = Some x \<Longrightarrow> x < y \<Longrightarrow> le_values v (v(s \<mapsto> y))"
  by (auto simp: le_values_def)

lemma evaluate_state_update:
  assumes "evaluate_state c pol (v, delta, converged) state = Inr (v', delta', converged')"
  shows "\<exists>old_v action new_v.
           v state = Some old_v \<and> pol state = Some action \<and>
           action_value c v state action = Inr new_v \<and>
           v' = (if new_v > old_v then v(state \<mapsto> new_v) else v) \<and>
           delta' = max delta \<bar>old_v - (if new_v > old_v then new_v else old_v)\<bar> \<and>
           converged' = (delta' < theta \<or> converged)"
proof -
  from assms obtain old_v where 1: "v state = Some old_v"
    by (auto simp: evaluate_state_def split: option.splits)
  from assms 1 obtain action where 2: "pol state = Some action"
    by (auto simp: evaluate_state_def split: option.splits)
  from assms 1 2 obtain new_v where 3: "action_value c v state action = Inr new_v"
    by (auto simp: evaluate_state_def split: sum.splits)
  show ?thesis
  proof (cases "new_v > old_v")
    case True
    with assms 1 2 3 show ?thesis
      by (auto simp: evaluate_state_def Let_def split: if_splits)
  next
    case False
    with assms 1 2 3 show ?thesis
      by (auto simp: evaluate_state_def Let_def split: if_splits)
  qed
qed

lemma evaluate_state_mono:
  assumes "evaluate_state c pol (v, delta, converged) state = Inr (v', delta', converged')"
  shows "le_values v v'"
proof -
  from evaluate_state_update [OF assms] obtain old_v new_v where
    "v state = Some old_v" "v' = (if new_v > old_v then v(state \<mapsto> new_v) else v)"
    by blast
  then show ?thesis
    by (cases "new_v > old_v") (simp_all add: le_values_update le_values_refl)
qed

lemma sweep_mono:
  "sweep c pol ss (v, delta, converged) = Inr (v', delta', converged') \<Longrightarrow> le_values v v'"
proof (induction ss arbitrary: v delta converged)
  case Nil
  then show ?case by (simp add: le_values_refl)
next
  case (Cons s ss)
  from Cons.prems obtain v1 d1 b1 where
    1: "evaluate_state c pol (v, delta, converged) s = Inr (v1, d1, b1)" and
    2: "sweep c pol ss (v1, d1, b1) = Inr (v', delta', converged')"
    by (auto split: sum.splits)
  from evaluate_state_mono [OF 1] Cons.IH [OF 2] show ?case
    by (rule le_values_trans)
qed

lemma policy_evaluation_step:
  assumes IH: "\<And>c v pol y. rec c v pol = Some y \<Longrightarrow> \<forall>v'. y = Inr v' \<longrightarrow> le_values v v'"
    and eq: "(case sweep c pol (states c) (v, 0, False) of
                Inl e \<Rightarrow> Some (Inl e)
              | Inr (v', delta, converged) \<Rightarrow>
                  if converged then Some (Inr v') else rec c v' pol) = Some r"
  shows "\<forall>v'. r = Inr v' \<longrightarrow> le_values v v'"
proof (cases "sweep c pol (states c) (v, 0, False)")
  case (Inl e)
  with eq show ?thesis by auto
next
  case (Inr acc)
  obtain v1 d1 b1 where acc: "acc = (v1, d1, b1)" by (cases acc) auto
  from Inr acc have le: "le_values v v1"
    using sweep_mono by blast
  show ?thesis
  proof (cases b1)
    case True
    from eq have "r = Inr v1"
      by (simp add: Inr acc True)
    with le show ?thesis by simp
  next
    case False
    from eq have "rec c v1 pol = Some r"
      by (simp add: Inr acc False)
    then have "\<forall>v'. r = Inr v' \<longrightarrow> le_values v1 v'"
      by (rule IH)
    with le show ?thesis
      using le_values_trans by blast
  qed
qed

lemma policy_evaluation_mono:
  assumes "policy_evaluation c v pol = Some (Inr v')"
  shows "le_values v v'"
proof -
  have "\<forall>w. (Inr v' :: error + value_function) = Inr w \<longrightarrow> le_values v w"
    by (rule policy_evaluation.raw_induct
          [where P = "\<lambda>c v pol r. \<forall>w. r = Inr w \<longrightarrow> le_values v w", OF _ assms])
       (rule policy_evaluation_step)
  then show ?thesis by simp
qed

lemma solve_reaches_mono:
  "solve_reaches c st st' \<Longrightarrow> le_values (fst (snd st)) (fst (snd st'))"
proof (induction rule: solve_reaches.induct)
  case (here st)
  show ?case by (rule le_values_refl)
next
  case (later v pol v' i i' stable' pol' st)
  from policy_evaluation_mono [OF later(1)] later(5) show ?case
    by (auto intro: le_values_trans)
qed

lemma policy_iteration_loop_step:
  assumes IH: "\<And>c i v pol y. rec c i v pol = Some y \<Longrightarrow>
                 \<forall>p. y = Inr p \<longrightarrow> (\<exists>i' v'. solve_reaches c (i, v, pol) (i', v', p))"
    and eq: "Option.bind (policy_evaluation c v pol)
       (\<lambda>r. case r of
               Inl e \<Rightarrow> Some (Inl e)
             | Inr v' \<Rightarrow>
                 (case policy_improvement c i v' pol of
                    Inl e \<Rightarrow> Some (Inl e)
                  | Inr (i', policy_stable, pol') \<Rightarrow>
                      if policy_stable then Some (Inr pol')
                      else rec c i' v' pol')) = Some y"
  shows "\<forall>p. y = Inr p \<longrightarrow> (\<exists>i' v'. solve_reaches c (i, v, pol) (i', v', p))"
proof (intro allI impI)
  fix p
  assume y: "y = Inr p"
  from eq obtain r where r: "policy_evaluation c v pol = Some r"
    by (auto simp: bind_eq_Some_conv)
  with eq y obtain v1 where v1: "r = Inr v1"
    by (cases r) auto
  from eq y r v1 obtain i1 s1 p1 where imp: "policy_improvement c i v1 pol = Inr (i1, s1, p1)"
    by (cases "policy_improvement c i v1 pol") auto
  show "\<exists>i' v'. solve_reaches c (i, v, pol) (i', v', p)"
  proof (cases s1)
    case True
    with eq y r v1 imp have "p = p1" by simp
    with r v1 imp show ?thesis
      using later [OF _ _ here] by blast
  next
    case False
    with eq r v1 imp have "rec c i1 v1 p1 = Some y" by simp
    from IH [OF this] y obtain i' v' where "solve_reaches c (i1, v1, p1) (i', v', p)"
      by blast
    with r v1 imp False show ?thesis
      using later by blast
  qed
qed

lemma policy_iteration_loop_reaches:
  assumes "policy_iteration_loop c i v pol = Some (Inr p)"
  shows "\<exists>i' v'. solve_reaches c (i, v, pol) (i', v', p)"
proof -
  have "\<forall>q. (Inr p :: error + policy) = Inr q \<longrightarrow>
          (\<exists>i' v'. solve_reaches c (i, v, pol) (i', v', q))"
    by (rule policy_iteration_loop.raw_induct
          [where P = "\<lambda>c i v pol y. \<forall>q. y = Inr q \<longrightarrow>
                        (\<exists>i' v'. solve_reaches c (i, v, pol) (i', v', q))", OF _ assms])
       (rule policy_iteration_loop_step)
  then show ?thesis by simp
qed

text \<open>
  The first evaluation of the solve for the die with the faces \<open>0\<close> and \<open>5\<close>: all
  values \<open>0\<close>, every state holding its die.
\<close>

lemma zf_states: "states zero_five_game = [[0], [5]]"
  by code_simp

lemma zf_v0: "initial_values zero_five_game [0] = Some 0" "initial_values zero_five_game [5] = Some 0"
  by code_simp+

lemma zf_p0: "initial_policy zero_five_game [0] [0] = Some [0]"
  "initial_policy zero_five_game [0] [5] = Some [0]"
  by code_simp+

lemma zf_q0: "action_value zero_five_game (initial_values zero_five_game) [0] [0] = Inr 0"
  by code_simp

lemma zf_q5: "action_value zero_five_game (initial_values zero_five_game) [5] [0] = Inr 5"
  by code_simp

lemma zf_eval0:
  "evaluate_state zero_five_game (initial_policy zero_five_game [0])
     (initial_values zero_five_game, 0, False) [0] = Inr (initial_values zero_five_game, 0, True)"
  by (simp add: evaluate_state_def zf_v0 zf_p0 zf_q0 theta_def)

lemma zf_eval5:
  "evaluate_state zero_five_game (initial_policy zero_five_game [0])
     (initial_values zero_five_game, 0, True) [5] =
   Inr ((initial_values zero_five_game)([5] \<mapsto> 5), 5, True)"
  by (simp add: evaluate_state_def zf_v0 zf_p0 zf_q5 theta_def)

lemma zf_sweep:
  "sweep zero_five_game (initial_policy zero_five_game [0]) (states zero_five_game)
     (initial_values zero_five_game, 0, False) =
   Inr ((initial_values zero_five_game)([5] \<mapsto> 5), 5, True)"
  by (simp add: zf_states zf_eval0 zf_eval5)

lemma zf_policy_evaluation:
  "policy_evaluation zero_five_game (initial_values zero_five_game)
     (initial_policy zero_five_game [0]) =
   Some (Inr ((initial_values zero_five_game)([5] \<mapsto> 5)))"
  by (subst policy_evaluation.simps) (simp add: zf_sweep)

lemma zf_q0_next:
  "action_value zero_five_game ((initial_values zero_five_game)([5] \<mapsto> 5)) [0] [0] = Inr 0"
  by code_simp

lemma zf_q5_next:
  "action_value zero_five_game ((initial_values zero_five_game)([5] \<mapsto> 5)) [5] [0] = Inr (97 / 10)"
  by code_simp

lemma zf_sweep_next:
  "sweep zero_five_game (initial_policy zero_five_game [0]) (states zero_five_game)
     ((initial_values zero_five_game)([5] \<mapsto> 5), 0, False) =
   Inr ((initial_values zero_five_game)([5] \<mapsto> 97 / 10), 47 / 10, True)"
  by (simp add: zf_states evaluate_state_def zf_v0 zf_p0 zf_q0_next zf_q5_next theta_def)

lemma zf_r0:
  "action_value zero_five_game ((initial_values zero_five_game)([5] \<mapsto> 5)) [0] [] = Inr (27 / 20)"
  by code_simp

lemma zf_r5:
  "action_value zero_five_game ((initial_values zero_five_game)([5] \<mapsto> 5)) [5] [] = Inr (27 / 20)"
  by code_simp

lemma zf_actions: "list_index (actions zero_five_game) 0 = Inr []"
  by code_simp

lemma zf_improvement:
  "policy_improvement zero_five_game 1 ((initial_values zero_five_game)([5] \<mapsto> 5))
     (initial_policy zero_five_game [0]) =
   Inr (0, False, (initial_policy zero_five_game [0])([0] \<mapsto> []))"
  by (simp add: policy_improvement_def zf_states improve_state_def zf_v0 zf_p0 zf_r0 zf_r5
        zf_actions)

lemma zf_reaches:
  "solve_reaches zero_five_game
     (1, initial_values zero_five_game, initial_policy zero_five_game [0])
     (0, (initial_values zero_five_game)([5] \<mapsto> 5),
      (initial_policy zero_five_game [0])([0] \<mapsto> []))"
  by (rule later [OF zf_policy_evaluation zf_improvement here]) simp

text \<open>
  Claim C7. In one step of an evaluation sweep the value of the state is replaced by the
  Bellman candidate exactly when the candidate is strictly greater, and left as it is
  otherwise. So no state's value decreases in a sweep, in a whole evaluation under a
  fixed policy, or over any number of rounds of the solve; and when the solve returns a
  policy, it is the policy of a state its rounds reach.
\<close>

theorem value_function_monotone:
  "(evaluate_state c pol (v, delta, converged) state = Inr (v', delta', converged') \<longrightarrow>
      (\<exists>old_v action candidate.
         v state = Some old_v \<and> pol state = Some action \<and>
         action_value c v state action = Inr candidate \<and>
         v' = (if candidate > old_v then v(state \<mapsto> candidate) else v))) \<and>
   (sweep c pol ss (v, delta, converged) = Inr (v', delta', converged') \<longrightarrow> le_values v v') \<and>
   (policy_evaluation c v pol = Some (Inr v') \<longrightarrow> le_values v v') \<and>
   (solve_reaches c (i, v, pol) (i', v', pol') \<longrightarrow> le_values v v') \<and>
   (policy_iteration_loop c i v pol = Some (Inr pol') \<longrightarrow>
      (\<exists>i' v'. solve_reaches c (i, v, pol) (i', v', pol')))"
proof (intro conjI impI)
  assume "evaluate_state c pol (v, delta, converged) state = Inr (v', delta', converged')"
  from evaluate_state_update [OF this]
  show "\<exists>old_v action candidate.
         v state = Some old_v \<and> pol state = Some action \<and>
         action_value c v state action = Inr candidate \<and>
         v' = (if candidate > old_v then v(state \<mapsto> candidate) else v)"
    by blast
next
  assume "sweep c pol ss (v, delta, converged) = Inr (v', delta', converged')"
  then show "le_values v v'" by (rule sweep_mono)
next
  assume "policy_evaluation c v pol = Some (Inr v')"
  then show "le_values v v'" by (rule policy_evaluation_mono)
next
  assume "solve_reaches c (i, v, pol) (i', v', pol')"
  from solve_reaches_mono [OF this] show "le_values v v'" by simp
next
  assume "policy_iteration_loop c i v pol = Some (Inr pol')"
  then show "\<exists>i' v'. solve_reaches c (i, v, pol) (i', v', pol')"
    by (rule policy_iteration_loop_reaches)
qed

theorem value_function_monotone_witness:
  "sweep zero_five_game (initial_policy zero_five_game [0]) (states zero_five_game)
     (initial_values zero_five_game, 0, False) =
     Inr ((initial_values zero_five_game)([5] \<mapsto> 5), 5, True) \<and>
   policy_evaluation zero_five_game (initial_values zero_five_game)
     (initial_policy zero_five_game [0]) =
     Some (Inr ((initial_values zero_five_game)([5] \<mapsto> 5))) \<and>
   solve_reaches zero_five_game
     (1, initial_values zero_five_game, initial_policy zero_five_game [0])
     (0, (initial_values zero_five_game)([5] \<mapsto> 5),
      (initial_policy zero_five_game [0])([0] \<mapsto> [])) \<and>
   le_values (initial_values zero_five_game) ((initial_values zero_five_game)([5] \<mapsto> 5)) \<and>
   initial_values zero_five_game [5] = Some 0 \<and>
   ((initial_values zero_five_game)([5] \<mapsto> 5)) [5] = Some 5"
proof -
  note T = value_function_monotone
    [of zero_five_game "initial_policy zero_five_game [0]" "initial_values zero_five_game" 0 False
        "[0]" "(initial_values zero_five_game)([5] \<mapsto> 5)" 5 True "states zero_five_game"
        1 0 "(initial_policy zero_five_game [0])([0] \<mapsto> [])"]
  from T zf_sweep have "le_values (initial_values zero_five_game)
      ((initial_values zero_five_game)([5] \<mapsto> 5))"
    by blast
  with zf_sweep zf_policy_evaluation zf_reaches zf_v0 show ?thesis
    by simp
qed

text \<open>
  Claim C8 at the die with the faces \<open>0\<close> and \<open>5\<close>. The first state \<open>(0,)\<close> does not
  change, so the running maximum is below \<open>theta\<close> when it is tested inside the loop and
  the flag is set; the second state \<open>(5,)\<close> then changes by \<open>5\<close>. The sweep ends with
  \<open>delta = 5\<close> and the flag still set, and the evaluation returns after this one sweep,
  although one more sweep would change \<open>(5,)\<close> by \<open>4.7\<close>.
\<close>

theorem evaluation_stops_early:
  "sweep zero_five_game (initial_policy zero_five_game [0]) (states zero_five_game)
     (initial_values zero_five_game, 0, False) =
     Inr ((initial_values zero_five_game)([5] \<mapsto> 5), 5, True) \<and>
   \<not> (5 < theta) \<and>
   policy_evaluation zero_five_game (initial_values zero_five_game)
     (initial_policy zero_five_game [0]) =
     Some (Inr ((initial_values zero_five_game)([5] \<mapsto> 5))) \<and>
   sweep zero_five_game (initial_policy zero_five_game [0]) (states zero_five_game)
     ((initial_values zero_five_game)([5] \<mapsto> 5), 0, False) =
     Inr ((initial_values zero_five_game)([5] \<mapsto> 97 / 10), 47 / 10, True) \<and>
   \<not> (47 / 10 < theta)"
  using zf_sweep zf_policy_evaluation zf_sweep_next by (simp add: theta_def)

section \<open>The action cursor of the improvement step\<close>

lemma list_index_wraps:
  "- int (length xs) \<le> i \<Longrightarrow> i < int (length xs) \<Longrightarrow>
   list_index xs i = Inr (xs ! nat (i mod int (length xs)))"
proof (cases "0 \<le> i")
  case True
  assume "i < int (length xs)"
  with True show ?thesis by (simp add: list_index_def)
next
  case False
  assume "- int (length xs) \<le> i"
  with False have "i mod int (length xs) = int (length xs) + i"
    by (smt (verit) mod_add_self1 mod_pos_pos_trivial)
  with False \<open>- int (length xs) \<le> i\<close> show ?thesis by (simp add: list_index_def)
qed

lemma list_index_fails: "i < - int (length xs) \<Longrightarrow> list_index xs i = Inl IndexError"
  by (simp add: list_index_def)

lemma policy_improvement_cursor:
  "policy_improvement c i v pol = Inr (i', stable', pol') \<Longrightarrow> i' = i - 1"
  by (auto simp: policy_improvement_def Let_def split: sum.splits)

lemma policy_improvement_fails:
  assumes "states c = s # ss" "pol s = Some a" "i \<le> - int (length (actions c))"
  shows "policy_improvement c i v pol = Inl IndexError"
proof -
  from assms(3) have "list_index (actions c) (i - 1) = Inl IndexError"
    by (intro list_index_fails) simp
  with assms(1,2) show ?thesis
    by (simp add: policy_improvement_def improve_state_def)
qed

lemma rg_states: "states reward_game = [[-1], [0], [1]]"
  by code_simp

lemma rg_actions: "actions reward_game = [[], [0]]"
  by code_simp

lemma rg_p0: "initial_policy reward_game [0] [-1] = Some [0]"
  by code_simp

text \<open>
  Claim C9 at a game with one die, whose action list is \<open>[(), (0,)]\<close>. The cursor
  starts at \<open>1\<close>; the first three improvement calls select the indices \<open>0\<close>, \<open>-1\<close>
  and \<open>-2\<close>, which Python's negative indexing resolves. The fourth call receives the
  cursor \<open>-2\<close>, decrements it to \<open>-3\<close> and raises \<open>IndexError\<close>, where modular
  arithmetic would select \<open>actions[1]\<close>.
\<close>

theorem action_cursor_runs_out:
  "actions reward_game = [[], [0]] \<and>
   list_index (actions reward_game) (1 - 1) = Inr [] \<and>
   list_index (actions reward_game) (1 - 2) = Inr [0] \<and>
   list_index (actions reward_game) (1 - 3) = Inr [] \<and>
   list_index (actions reward_game) (1 - 4) = Inl IndexError \<and>
   policy_improvement reward_game (- 2) v (initial_policy reward_game [0]) = Inl IndexError \<and>
   actions reward_game ! nat ((1 - 4) mod 2) = [0]"
proof -
  have "policy_improvement reward_game (- 2) v (initial_policy reward_game [0]) = Inl IndexError"
    using rg_states rg_p0
    by (rule policy_improvement_fails [where pol = "initial_policy reward_game [0]"])
       (simp add: rg_actions)
  then show ?thesis
    by (simp add: rg_actions list_index_def)
qed

end
